theory Spec2Isabelle
  imports Complex_Main
begin

section \<open>Python values and exceptions\<close>

text \<open>
  The exceptions the animation code of \<^verbatim>\<open>csse7030.py\<close> can raise. A method that raises
  returns \<open>Inl\<close> of the exception; a method that returns normally returns \<open>Inr\<close>.
\<close>

datatype error = ValueError | AttributeError | ZeroDivisionError | IndexError | NotImplementedError

text \<open>
  \<^verbatim>\<open>round(a / b)\<close> on Python ints: true division (which raises on a zero divisor),
  then rounding to the nearest integer with ties going to the even neighbour. The
  quotient and remainder are those of floor division, so \<open>a / b = q + r / b\<close> with
  \<open>0 \<le> r / b < 1\<close>. The only numerator used below is 1000: the exact quotient
  \<open>1000 / b\<close> is either a tie or at least \<open>1 / (2 b)\<close> away from one, which is more
  than the error \<open>1000 / (b * 2 ^ 53)\<close> of the correctly rounded double, so rounding
  the double and rounding the exact quotient agree.
\<close>

definition py_round_div :: "int \<Rightarrow> int \<Rightarrow> error + int" where
  "py_round_div a b =
     (if b = 0 then Inl ZeroDivisionError
      else let q = a div b; r = a mod b in
        Inr (if 2 * abs r < abs b then q
             else if abs b < 2 * abs r then q + 1
             else if even q then q else q + 1))"

text \<open>\<^verbatim>\<open>xs[i]\<close>: a negative index counts from the end, anything out of range raises.\<close>

definition list_getitem :: "'a list \<Rightarrow> int \<Rightarrow> error + 'a" where
  "list_getitem xs i =
     (if 0 \<le> i \<and> i < int (length xs) then Inr (xs ! nat i)
      else if i < 0 \<and> 0 \<le> int (length xs) + i then Inr (xs ! nat (int (length xs) + i))
      else Inl IndexError)"

section \<open>The canvas (\<^verbatim>\<open>task1.AbstractGrid\<close>)\<close>

text \<open>
  The grid canvas keeps the pixel size of a cell. The toolkit calls the animations make
  on it (\<^verbatim>\<open>delete\<close>, \<^verbatim>\<open>create_image\<close>) are recorded in the order they are made;
  \<^verbatim>\<open>create_image\<close> hands out a fresh item id.
\<close>

datatype canvas_op = Delete nat | CreateImage "int \<times> int" "int option"

record canvas =
  cell_width :: int
  cell_height :: int
  next_item :: nat
  ops :: "canvas_op list"

definition get_position_center :: "canvas \<Rightarrow> int \<times> int \<Rightarrow> int \<times> int" where
  "get_position_center self pos =
     (case pos of (row, col) \<Rightarrow>
        (col * cell_width self + cell_width self div 2,
         row * cell_height self + cell_height self div 2))"

definition canvas_delete :: "canvas \<Rightarrow> nat \<Rightarrow> canvas" where
  "canvas_delete self item = self\<lparr>ops := ops self @ [Delete item]\<rparr>"

definition canvas_create_image :: "canvas \<Rightarrow> int \<times> int \<Rightarrow> int option \<Rightarrow> nat \<times> canvas" where
  "canvas_create_image self pos ang =
     (next_item self,
      self\<lparr>next_item := Suc (next_item self), ops := ops self @ [CreateImage pos ang]\<rparr>)"

section \<open>\<^verbatim>\<open>Animation\<close>\<close>

text \<open>
  Everything a callback can touch is the environment: the canvas together with the rest
  of the program (the game, the widgets), of an arbitrary type \<open>'w\<close>. A callback is a
  transformer of the environment. A callback attribute that was never assigned is
  \<open>None\<close>; reading it raises \<^verbatim>\<open>AttributeError\<close>.
\<close>

type_synonym 'w env = "canvas \<times> 'w"

type_synonym 'w callback = "'w env \<Rightarrow> 'w env"

record 'w Animation =
  start_callback :: "'w callback option"
  finish_callback :: "'w callback option"


definition Animation_init :: "'w Animation" where
  "Animation_init = \<lparr>start_callback = Some (\<lambda>e. e), finish_callback = Some (\<lambda>e. e)\<rparr>"

definition on_finish :: "('w, 'z) Animation_scheme \<Rightarrow> 'w callback \<Rightarrow> ('w, 'z) Animation_scheme" where
  "on_finish self callback = self\<lparr>finish_callback := Some callback\<rparr>"

definition on_start :: "('w, 'z) Animation_scheme \<Rightarrow> 'w callback \<Rightarrow> ('w, 'z) Animation_scheme" where
  "on_start self callback = self\<lparr>start_callback := Some callback\<rparr>"



definition Animation_start :: "('w, 'z) Animation_scheme \<Rightarrow> 'w env \<Rightarrow> error + 'w env" where
  "Animation_start self e =
     (case start_callback self of None \<Rightarrow> Inl AttributeError | Some callback \<Rightarrow> Inr (callback e))"

definition Animation_finish :: "('w, 'z) Animation_scheme \<Rightarrow> 'w env \<Rightarrow> error + 'w env" where
  "Animation_finish self e =
     (case finish_callback self of None \<Rightarrow> Inl AttributeError | Some callback \<Rightarrow> Inr (callback e))"

text \<open>
  \<^verbatim>\<open>get_frequency\<close> calls \<^verbatim>\<open>self.get_framerate()\<close>, which a subclass may override:
  the framerate of the receiver is its argument here.
\<close>

definition Animation_get_frequency :: "int \<Rightarrow> error + int" where
  "Animation_get_frequency framerate = py_round_div 1000 framerate"

section \<open>\<^verbatim>\<open>CrossboltAnimation\<close>\<close>

definition ANGLE_MAP :: "int \<times> int \<Rightarrow> int option" where
  "ANGLE_MAP = map_of [((0, -1), 90), ((0, 1), 270), ((-1, 0), 180), ((1, 0), 0)]"

definition STEP_SIZE :: int where
  "STEP_SIZE = 25"

record 'w CrossboltAnimation = "'w Animation" +
  position :: "int \<times> int"
  target :: "int \<times> int"
  direction :: "int \<times> int"
  angle :: "int option"
  image_id :: "nat option"

definition direction_from_positions :: "int \<times> int \<Rightarrow> int \<times> int \<Rightarrow> error + int \<times> int" where
  "direction_from_positions start goal =
     (case start of (start_x, start_y) \<Rightarrow>
      case goal of (target_x, target_y) \<Rightarrow>
        if start_x < target_x then Inr (0, 1)
        else if start_x > target_x then Inr (0, -1)
        else if start_y < target_y then Inr (1, 0)
        else if start_y > target_y then Inr (-1, 0)
        else Inl ValueError)"

definition angle_from_direction :: "int \<times> int \<Rightarrow> int option" where
  "angle_from_direction d = ANGLE_MAP d"

text \<open>
  The constructor does not call \<^verbatim>\<open>Animation.__init__\<close>: the two callback attributes
  of a new crossbolt animation are unassigned.
\<close>

definition CrossboltAnimation_init :: "canvas \<Rightarrow> int \<times> int \<Rightarrow> int \<times> int \<Rightarrow> error + 'w CrossboltAnimation" where
  "CrossboltAnimation_init cv start goal =
     (case direction_from_positions start goal of
        Inl e \<Rightarrow> Inl e
      | Inr d \<Rightarrow>
          Inr \<lparr>start_callback = None, finish_callback = None,
               position = get_position_center cv start,
               target = get_position_center cv goal,
               direction = d,
               angle = angle_from_direction d,
               image_id = None\<rparr>)"

definition CrossboltAnimation_get_framerate :: "'w CrossboltAnimation \<Rightarrow> int" where
  "CrossboltAnimation_get_framerate self = 10"

definition clear :: "'w CrossboltAnimation \<Rightarrow> canvas \<Rightarrow> canvas" where
  "clear self cv = (case image_id self of None \<Rightarrow> cv | Some item \<Rightarrow> canvas_delete cv item)"

definition draw :: "'w CrossboltAnimation \<Rightarrow> canvas \<Rightarrow> 'w CrossboltAnimation \<times> canvas" where
  "draw self cv =
     (case canvas_create_image (clear self cv) (position self) (angle self) of
        (item, cv') \<Rightarrow> (self\<lparr>image_id := Some item\<rparr>, cv'))"

definition has_passed_target :: "'w CrossboltAnimation \<Rightarrow> bool" where
  "has_passed_target self =
     (case direction self of (dx, dy) \<Rightarrow>
      case position self of (current_x, current_y) \<Rightarrow>
      case target self of (target_x, target_y) \<Rightarrow>
        let moving_left = dy < 0;
            moving_right = dy > 0;
            moving_up = dx < 0;
            moving_down = dx > 0
        in if moving_left \<and> current_y < target_y then True
           else if moving_right \<and> current_y > target_y then True
           else if moving_up \<and> current_x < target_x then True
           else if moving_down \<and> current_x > target_x then True
           else False)"

definition move_one_step :: "'w CrossboltAnimation \<Rightarrow> 'w CrossboltAnimation" where
  "move_one_step self =
     (case position self of (current_x, current_y) \<Rightarrow>
      case direction self of (dx, dy) \<Rightarrow>
        self\<lparr>position := (current_x + STEP_SIZE * dx, current_y + STEP_SIZE * dy)\<rparr>)"

definition CrossboltAnimation_step :: "'w CrossboltAnimation \<Rightarrow> 'w env \<Rightarrow> error + bool \<times> 'w CrossboltAnimation \<times> 'w env" where
  "CrossboltAnimation_step self e =
     (if has_passed_target self then Inr (False, self, e)
      else case draw self (fst e) of
             (self', cv') \<Rightarrow> Inr (True, move_one_step self', (cv', snd e)))"

definition CrossboltAnimation_finish :: "'w CrossboltAnimation \<Rightarrow> 'w env \<Rightarrow> error + 'w env" where
  "CrossboltAnimation_finish self e = Animation_finish self (clear self (fst e), snd e)"

section \<open>\<^verbatim>\<open>TimeMachineAnimation\<close>\<close>

text \<open>
  The snapshots are of an arbitrary type \<open>'s\<close>. A step builds a game from the snapshot
  under the cursor and hands it to the redraw callback; the game is a function of the
  snapshot alone, so the callback is modelled as receiving the snapshot. The attribute
  \<^verbatim>\<open>_canvas\<close> is assigned and never read; the canvas is part of the environment.
\<close>

record ('w, 's) TimeMachineAnimation = "'w Animation" +
  game_states :: "'s list"
  draw_game :: "'s \<Rightarrow> 'w callback"
  current_step :: int

definition TimeMachineAnimation_init :: "'s list \<Rightarrow> ('s \<Rightarrow> 'w callback) \<Rightarrow> ('w, 's) TimeMachineAnimation" where
  "TimeMachineAnimation_init states draw_game_callback =
     Animation.extend Animation_init
       (TimeMachineAnimation.fields states draw_game_callback (int (length states) - 1))"

definition TimeMachineAnimation_get_frequency :: "('w, 's) TimeMachineAnimation \<Rightarrow> error + int" where
  "TimeMachineAnimation_get_frequency self = py_round_div 1000 (int (length (game_states self)))"

definition TimeMachineAnimation_step :: "('w, 's) TimeMachineAnimation \<Rightarrow> 'w env \<Rightarrow> error + bool \<times> ('w, 's) TimeMachineAnimation \<times> 'w env" where
  "TimeMachineAnimation_step self e =
     (if current_step self < 0 then Inr (False, self, e)
      else case list_getitem (game_states self) (current_step self) of
             Inl err \<Rightarrow> Inl err
           | Inr current_state \<Rightarrow>
               Inr (True, self\<lparr>current_step := current_step self - 1\<rparr>,
                    draw_game self current_state e))"

section \<open>Dynamic dispatch\<close>

text \<open>
  \<^verbatim>\<open>AnimationManager\<close> calls \<^verbatim>\<open>start\<close>, \<^verbatim>\<open>step\<close>, \<^verbatim>\<open>finish\<close> and
  \<^verbatim>\<open>get_frequency\<close> on whatever animation object it is given. The object is modelled
  as its state \<open>'a\<close> (the animation's attributes together with the environment) and the
  table of the four methods of its class.
\<close>

record 'a animation_class =
  start_method :: "'a \<Rightarrow> error + 'a"
  step_method :: "'a \<Rightarrow> error + bool \<times> 'a"
  finish_method :: "'a \<Rightarrow> error + 'a"
  get_frequency_method :: "'a \<Rightarrow> error + int"

definition lift_env :: "'b \<Rightarrow> error + 'e \<Rightarrow> error + 'b \<times> 'e" where
  "lift_env self r = (case r of Inl err \<Rightarrow> Inl err | Inr e \<Rightarrow> Inr (self, e))"


definition CrossboltAnimation_class :: "('w CrossboltAnimation \<times> 'w env) animation_class" where
  "CrossboltAnimation_class =
     \<lparr>start_method = (\<lambda>(self, e). lift_env self (Animation_start self e)),
      step_method = (\<lambda>(self, e). CrossboltAnimation_step self e),
      finish_method = (\<lambda>(self, e). lift_env self (CrossboltAnimation_finish self e)),
      get_frequency_method =
        (\<lambda>(self, e). Animation_get_frequency (CrossboltAnimation_get_framerate self))\<rparr>"

definition TimeMachineAnimation_class :: "(('w, 's) TimeMachineAnimation \<times> 'w env) animation_class" where
  "TimeMachineAnimation_class =
     \<lparr>start_method = (\<lambda>(self, e). lift_env self (Animation_start self e)),
      step_method = (\<lambda>(self, e). TimeMachineAnimation_step self e),
      finish_method = (\<lambda>(self, e). lift_env self (Animation_finish self e)),
      get_frequency_method = (\<lambda>(self, e). TimeMachineAnimation_get_frequency self)\<rparr>"

text \<open>
  \<open>step_calls cls n a\<close> calls \<^verbatim>\<open>step\<close> \<open>n\<close> times in a row on the animation \<open>a\<close>,
  whatever the calls return, and collects what they return.
\<close>

fun step_calls :: "'a animation_class \<Rightarrow> nat \<Rightarrow> 'a \<Rightarrow> error + bool list \<times> 'a" where
  "step_calls cls 0 a = Inr ([], a)"
| "step_calls cls (Suc n) a =
     (case step_method cls a of
        Inl err \<Rightarrow> Inl err
      | Inr (b, a') \<Rightarrow>
          (case step_calls cls n a' of
             Inl err \<Rightarrow> Inl err
           | Inr (bs, a'') \<Rightarrow> Inr (b # bs, a'')))"

definition step_results :: "'a animation_class \<Rightarrow> nat \<Rightarrow> 'a \<Rightarrow> error + bool list" where
  "step_results cls n a = (case step_calls cls n a of Inl err \<Rightarrow> Inl err | Inr (bs, a') \<Rightarrow> Inr bs)"

section \<open>\<^verbatim>\<open>AnimationManager\<close>\<close>

text \<open>
  The manager's calls on the animation, in the order they are made. A \<^verbatim>\<open>step\<close> call is
  recorded with what it returned (\<open>None\<close> when it raised); \<open>After ms\<close> is the call
  \<^verbatim>\<open>canvas.after(ms, ...)\<close> that schedules the next \<^verbatim>\<open>_step_animation\<close>.
\<close>

datatype event = Start | Step "bool option" | Finish | GetFrequency | After int

text \<open>
  One run of the manager's code ends in one of three ways: the animation is finished,
  a call of \<^verbatim>\<open>_step_animation\<close> is scheduled with the toolkit's timer, or an exception
  left the code.
\<close>

datatype 'a outcome = Completed 'a | Scheduled int 'a | Raised error

definition step_animation :: "'a animation_class \<Rightarrow> 'a \<Rightarrow> event list \<times> 'a outcome" where
  "step_animation cls animation =
     (case step_method cls animation of
        Inl err \<Rightarrow> ([Step None], Raised err)
      | Inr (continue, animation') \<Rightarrow>
          if \<not> continue then
            (case finish_method cls animation' of
               Inl err \<Rightarrow> ([Step (Some False), Finish], Raised err)
             | Inr animation'' \<Rightarrow> ([Step (Some False), Finish], Completed animation''))
          else
            (case get_frequency_method cls animation' of
               Inl err \<Rightarrow> ([Step (Some True), GetFrequency], Raised err)
             | Inr ms \<Rightarrow> ([Step (Some True), GetFrequency, After ms], Scheduled ms animation')))"

definition play_animation :: "'a animation_class \<Rightarrow> 'a \<Rightarrow> event list \<times> 'a outcome" where
  "play_animation cls animation =
     (case start_method cls animation of
        Inl err \<Rightarrow> ([Start], Raised err)
      | Inr animation' \<Rightarrow>
          (case step_animation cls animation' of (tr, out) \<Rightarrow> (Start # tr, out)))"

text \<open>
  The toolkit's event loop fires a scheduled call when its delay has passed. \<open>mainloop n\<close>
  lets it fire \<open>n\<close> times, starting from what the manager's code has done so far; when
  nothing is scheduled, nothing more happens.
\<close>

fun mainloop :: "'a animation_class \<Rightarrow> nat \<Rightarrow> event list \<times> 'a outcome \<Rightarrow> event list \<times> 'a outcome" where
  "mainloop cls 0 r = r"
| "mainloop cls (Suc n) (tr, Scheduled ms animation) =
     (case step_animation cls animation of (tr', out) \<Rightarrow> mainloop cls n (tr @ tr', out))"
| "mainloop cls (Suc n) (tr, Completed animation) = (tr, Completed animation)"
| "mainloop cls (Suc n) (tr, Raised err) = (tr, Raised err)"

section \<open>Notions used in the statements\<close>

text \<open>The four axis-aligned unit vectors.\<close>

definition unit_directions :: "(int \<times> int) set" where
  "unit_directions = {(0, 1), (0, -1), (1, 0), (-1, 0)}"

text \<open>
  The signed distance still to travel: the vector from the current position to the
  target, projected on the direction of travel.
\<close>

definition travel_offset :: "'w CrossboltAnimation \<Rightarrow> int" where
  "travel_offset self =
     (fst (target self) - fst (position self)) * fst (direction self)
     + (snd (target self) - snd (position self)) * snd (direction self)"

text \<open>
  The overshoot test written as one comparison: the signed distance from the target to
  the current position, projected on the direction of travel, is strictly positive.
\<close>

definition signed_overshoot :: "int \<times> int \<Rightarrow> int \<times> int \<Rightarrow> int \<times> int \<Rightarrow> bool" where
  "signed_overshoot pos tgt d = (0 < (fst pos - fst tgt) * fst d + (snd pos - snd tgt) * snd d)"

text \<open>
  The pixel distance between the centres of two cells along the axis of travel: rows
  when the rows differ, columns otherwise.
\<close>

definition travel_distance :: "canvas \<Rightarrow> int \<times> int \<Rightarrow> int \<times> int \<Rightarrow> int" where
  "travel_distance cv start goal =
     (if fst start \<noteq> fst goal then abs (fst goal - fst start) * cell_height cv
      else abs (snd goal - snd start) * cell_width cv)"

text \<open>
  Construct a crossbolt animation on the canvas and call \<^verbatim>\<open>step\<close> on it \<open>n\<close> times.
\<close>

definition crossbolt_step_results :: "canvas \<Rightarrow> int \<times> int \<Rightarrow> int \<times> int \<Rightarrow> 'w \<Rightarrow> nat \<Rightarrow> error + bool list" where
  "crossbolt_step_results cv start goal w n =
     (case CrossboltAnimation_init cv start goal of
        Inl err \<Rightarrow> Inl err
      | Inr self \<Rightarrow> step_results CrossboltAnimation_class n (self, (cv, w)))"

text \<open>The manager's calls for a run of frames that each asked for another one.\<close>

fun frames :: "int list \<Rightarrow> event list" where
  "frames [] = []"
| "frames (ms # mss) = Step (Some True) # GetFrequency # After ms # frames mss"





text \<open>Inputs for the examples: a small canvas and two redraw callbacks.\<close>

definition canvas25 :: canvas where
  "canvas25 = \<lparr>cell_width = 25, cell_height = 25, next_item = 0, ops = []\<rparr>"

definition bolt25 :: "unit CrossboltAnimation" where
  "bolt25 =
     \<lparr>start_callback = None, finish_callback = None,
      position = (12, 12), target = (87, 12), direction = (1, 0),
      angle = Some 0, image_id = None\<rparr>"

definition keep_view :: "'s \<Rightarrow> 'w callback" where
  "keep_view s e = e"

definition log_view :: "'s \<Rightarrow> 's list callback" where
  "log_view s e = (fst e, snd e @ [s])"

section \<open>The crossbolt's geometry\<close>

lemma direction_in_units:
  "direction_from_positions start goal = Inr d \<Longrightarrow> d \<in> unit_directions"
  by (cases start; cases goal)
     (auto simp: direction_from_positions_def unit_directions_def split: if_splits)

lemma has_passed_target_offset:
  "direction self \<in> unit_directions \<Longrightarrow> has_passed_target self = (travel_offset self < 0)"
  by (cases "position self"; cases "target self")
     (auto simp: has_passed_target_def travel_offset_def unit_directions_def split: if_splits)

lemma init_fields:
  assumes "CrossboltAnimation_init cv start goal = Inr self"
  shows "direction_from_positions start goal = Inr (direction self)"
    and "position self = get_position_center cv start"
    and "target self = get_position_center cv goal"
    and "angle self = angle_from_direction (direction self)"
    and "image_id self = None"
    and "start_callback self = None"
    and "finish_callback self = None"
  using assms by (auto simp: CrossboltAnimation_init_def split: sum.splits)

lemma offset_along_direction:
  assumes "direction_from_positions start goal = Inr d"
  shows "(fst (get_position_center cv goal) - fst (get_position_center cv start)) * fst d
         + (snd (get_position_center cv goal) - snd (get_position_center cv start)) * snd d
         = travel_distance cv start goal"
  using assms
  by (cases start; cases goal)
     (auto simp: direction_from_positions_def get_position_center_def travel_distance_def
        algebra_simps split: if_splits)

lemma init_offset:
  assumes "CrossboltAnimation_init cv start goal = Inr self"
  shows "travel_offset self = travel_distance cv start goal"
  using offset_along_direction [OF init_fields(1) [OF assms], of cv]
  by (simp add: travel_offset_def init_fields(2,3) [OF assms])

lemma direction_defined:
  "start \<noteq> goal \<Longrightarrow> \<exists>d. direction_from_positions start goal = Inr d"
  by (cases start; cases goal) (auto simp: direction_from_positions_def)

lemma init_defined:
  assumes "start \<noteq> goal"
  shows "\<exists>self. CrossboltAnimation_init cv start goal = Inr self"
proof -
  obtain d where "direction_from_positions start goal = Inr d"
    using direction_defined [OF assms] by blast
  then show ?thesis
    by (simp add: CrossboltAnimation_init_def)
qed

lemma travel_distance_pos:
  assumes "start \<noteq> goal" and "0 < cell_width cv" and "0 < cell_height cv"
  shows "0 < travel_distance cv start goal"
proof (cases "fst start \<noteq> fst goal")
  case True
  then have "0 < abs (fst goal - fst start)" by simp
  then show ?thesis
    using True assms(3) by (simp add: travel_distance_def)
next
  case False
  then have "snd start \<noteq> snd goal"
    using assms(1) by (simp add: prod_eq_iff)
  then have "0 < abs (snd goal - snd start)" by simp
  then show ?thesis
    using False assms(2) by (simp add: travel_distance_def)
qed

section \<open>Stepping a crossbolt\<close>

lemma step_results_0: "step_results cls 0 a = Inr []"
  by (simp add: step_results_def)

lemma step_results_Suc:
  "step_results cls (Suc n) a =
     (case step_method cls a of
        Inl err \<Rightarrow> Inl err
      | Inr (b, a') \<Rightarrow>
          (case step_results cls n a' of Inl err \<Rightarrow> Inl err | Inr bs \<Rightarrow> Inr (b # bs)))"
  by (simp add: step_results_def split: sum.splits prod.splits)

lemma crossbolt_step_method:
  "step_method CrossboltAnimation_class (self, e) = CrossboltAnimation_step self e"
  by (simp add: CrossboltAnimation_class_def)

lemma step_stop:
  "direction self \<in> unit_directions \<Longrightarrow> travel_offset self < 0 \<Longrightarrow>
     CrossboltAnimation_step self e = Inr (False, self, e)"
  by (simp add: CrossboltAnimation_step_def has_passed_target_offset)

lemma step_continue:
  assumes "direction self \<in> unit_directions" and "0 \<le> travel_offset self"
  shows "\<exists>self' e'. CrossboltAnimation_step self e = Inr (True, self', e')
           \<and> direction self' = direction self
           \<and> travel_offset self' = travel_offset self - STEP_SIZE"
  using assms
  by (cases "position self"; cases "target self")
     (auto simp: CrossboltAnimation_step_def has_passed_target_offset draw_def move_one_step_def
        canvas_create_image_def travel_offset_def unit_directions_def algebra_simps
        split: prod.splits)

lemma step_results_by_offset:
  assumes "direction self \<in> unit_directions" and "0 \<le> travel_offset self"
    and "n = nat (travel_offset self div STEP_SIZE)"
  shows "step_results CrossboltAnimation_class (n + 2) (self, e) = Inr (replicate (n + 1) True @ [False])"
  using assms
proof (induction n arbitrary: self e)
  case 0
  then have small: "travel_offset self < STEP_SIZE"
    by (simp add: STEP_SIZE_def)
  obtain self' e' where s1: "CrossboltAnimation_step self e = Inr (True, self', e')"
    and d1: "direction self' = direction self"
    and o1: "travel_offset self' = travel_offset self - STEP_SIZE"
    using step_continue [OF "0.prems"(1,2)] by blast
  have "CrossboltAnimation_step self' e' = Inr (False, self', e')"
    using step_stop [of self' e'] d1 o1 small "0.prems"(1) by simp
  then show ?case
    using s1 by (simp add: step_results_Suc step_results_0 crossbolt_step_method)
next
  case (Suc n)
  then have big: "STEP_SIZE \<le> travel_offset self"
    by (simp add: STEP_SIZE_def)
  obtain self' e' where s1: "CrossboltAnimation_step self e = Inr (True, self', e')"
    and d1: "direction self' = direction self"
    and o1: "travel_offset self' = travel_offset self - STEP_SIZE"
    using step_continue [OF Suc.prems(1,2)] by blast
  have n: "n = nat (travel_offset self' div STEP_SIZE)"
    using Suc.prems(3) o1 by (simp add: STEP_SIZE_def)
  have "step_results CrossboltAnimation_class (n + 2) (self', e') = Inr (replicate (n + 1) True @ [False])"
    using Suc.IH [of self' e'] d1 o1 big n Suc.prems(1) by simp
  then show ?case
    using s1 by (simp add: step_results_Suc crossbolt_step_method)
qed

text \<open>
  C1, as the code has it. The overshoot test is strict, so the crossbolt is still drawn
  when it is exactly on the target: with \<open>D > 0\<close> the pixel distance between the two
  cell centres along the axis of travel and \<open>S\<close> the step size, the first
  \<open>D div S + 1\<close> calls of \<^verbatim>\<open>step\<close> return true and the next one returns false.
\<close>

theorem crossbolt_true_step_count:
  assumes "start \<noteq> goal" and "0 < cell_width cv" and "0 < cell_height cv"
  shows "0 < travel_distance cv start goal
       \<and> crossbolt_step_results cv start goal w (nat (travel_distance cv start goal div STEP_SIZE) + 2)
           = Inr (replicate (nat (travel_distance cv start goal div STEP_SIZE) + 1) True @ [False])"
proof -
  obtain self :: "'a CrossboltAnimation" where init: "CrossboltAnimation_init cv start goal = Inr self"
    using init_defined [OF assms(1)] by blast
  have pos: "0 < travel_distance cv start goal"
    using assms by (rule travel_distance_pos)
  have d: "direction self \<in> unit_directions"
    using init_fields(1) [OF init] by (rule direction_in_units)
  have o: "travel_offset self = travel_distance cv start goal"
    using init by (rule init_offset)
  have "step_results CrossboltAnimation_class (nat (travel_distance cv start goal div STEP_SIZE) + 2) (self, (cv, w))
          = Inr (replicate (nat (travel_distance cv start goal div STEP_SIZE) + 1) True @ [False])"
    using d pos o by (intro step_results_by_offset) simp_all
  then show ?thesis
    using pos by (simp add: crossbolt_step_results_def init)
qed

text \<open>
  From cell (0,0) to cell (0,3) on a canvas whose cells are one step wide, four calls
  return true and the fifth returns false.
\<close>

theorem crossbolt_true_step_count_witness:
  "(0, 0) \<noteq> ((0, 3) :: int \<times> int) \<and> 0 < cell_width canvas25 \<and> 0 < cell_height canvas25
   \<and> 0 < travel_distance canvas25 (0, 0) (0, 3)
   \<and> crossbolt_step_results canvas25 (0, 0) (0, 3) () 5 = Inr [True, True, True, True, False]"
proof -
  have h: "(0, 0) \<noteq> ((0, 3) :: int \<times> int)" "0 < cell_width canvas25" "0 < cell_height canvas25"
    by (simp_all add: canvas25_def)
  have d: "travel_distance canvas25 (0, 0) (0, 3) = 75"
    by (simp add: travel_distance_def canvas25_def)
  show ?thesis
    using h crossbolt_true_step_count [OF h, of "()"]
    by (simp add: d STEP_SIZE_def numeral_eq_Suc)
qed

text \<open>
  C1 as stated fails there: the distance is 75 pixels and the step 25, so the claim
  gives \<open>ceil (75 / 25) = 3\<close> calls returning true and the fourth returning false, while
  the fourth call returns true.
\<close>

theorem crossbolt_ceil_counterexample:
  "\<lceil>real_of_int (travel_distance canvas25 (0, 0) (0, 3)) / real_of_int STEP_SIZE\<rceil> = 3
   \<and> crossbolt_step_results canvas25 (0, 0) (0, 3) () 4 = Inr [True, True, True, True]"
proof -
  have d: "travel_distance canvas25 (0, 0) (0, 3) = 75"
    by (simp add: travel_distance_def canvas25_def)
  have "crossbolt_step_results canvas25 (0, 0) (0, 3) () 4 = Inr [True, True, True, True]"
    by (simp add: crossbolt_step_results_def CrossboltAnimation_init_def
        direction_from_positions_def get_position_center_def canvas25_def
        step_results_Suc step_results_0 crossbolt_step_method numeral_eq_Suc
        CrossboltAnimation_step_def has_passed_target_def draw_def clear_def
        canvas_create_image_def canvas_delete_def move_one_step_def STEP_SIZE_def
        angle_from_direction_def)
  then show ?thesis
    by (simp add: d STEP_SIZE_def)
qed

section \<open>Construction of a crossbolt\<close>

lemma direction_same_cell: "direction_from_positions p p = Inl ValueError"
  by (cases p) (simp add: direction_from_positions_def)

text \<open>
  C4. Constructing a crossbolt animation whose start cell is its target cell raises
  \<^verbatim>\<open>ValueError\<close> in the constructor, whatever the cell and the canvas: no animation
  object exists that could be stepped or scheduled.
\<close>

theorem crossbolt_same_cell_raises:
  "CrossboltAnimation_init cv p p = Inl ValueError"
  by (simp add: CrossboltAnimation_init_def direction_same_cell)

text \<open>
  C8. For two distinct cells the direction derived by the constructor is one of the four
  axis-aligned unit vectors and a function of the two cells alone. When the rows differ
  the row decides it, whether or not the columns differ too: the second component (the
  one added to the pixel row) is the sign of the row difference and the first is zero.
  Only for equal rows does the column decide.
\<close>

theorem direction_unit_vector:
  assumes "start \<noteq> goal"
  shows "\<exists>d. direction_from_positions start goal = Inr d
           \<and> d \<in> unit_directions
           \<and> d = (if fst start \<noteq> fst goal then (0, sgn (fst goal - fst start))
                  else (sgn (snd goal - snd start), 0))"
  using assms
  by (cases start; cases goal) (auto simp: direction_from_positions_def unit_directions_def)

text \<open>From cell (1,1) to cell (3,0) both coordinates differ, and the row wins.\<close>

theorem direction_unit_vector_witness:
  "(1, 1) \<noteq> ((3, 0) :: int \<times> int) \<and> direction_from_positions (1, 1) (3, 0) = Inr (0, 1)"
proof -
  have h: "(1, 1) \<noteq> ((3, 0) :: int \<times> int)"
    by simp
  show ?thesis
    using h direction_unit_vector [OF h] by simp
qed

section \<open>The overshoot test\<close>

text \<open>
  C9. For a direction among the four unit vectors, the four-branch test of
  \<^verbatim>\<open>_has_passed_target\<close> is true exactly when the signed distance from the target to
  the current position along the direction of travel is strictly positive.
\<close>

theorem has_passed_target_signed_distance:
  assumes "direction self \<in> unit_directions"
  shows "has_passed_target self
           = signed_overshoot (position self) (target self) (direction self)"
  using assms
  by (cases "position self"; cases "target self")
     (auto simp: has_passed_target_def signed_overshoot_def unit_directions_def
        split: if_splits)

theorem has_passed_target_signed_distance_witness:
  "direction (bolt25\<lparr>position := (112, 12)\<rparr>) \<in> unit_directions
   \<and> has_passed_target (bolt25\<lparr>position := (112, 12)\<rparr>)
   \<and> signed_overshoot (112, 12) (87, 12) (1, 0)"
proof -
  have h: "direction (bolt25\<lparr>position := (112, 12)\<rparr>) \<in> unit_directions"
    by (simp add: bolt25_def unit_directions_def)
  show ?thesis
    using h has_passed_target_signed_distance [OF h]
    by (simp add: bolt25_def signed_overshoot_def)
qed

lemma travel_distance_nonneg:
  "0 \<le> cell_width cv \<Longrightarrow> 0 \<le> cell_height cv \<Longrightarrow> 0 \<le> travel_distance cv start goal"
  by (simp add: travel_distance_def)

text \<open>
  C10. When the construction succeeds on a canvas with cells of positive size, the test
  is false at the initial position, the centre of the start cell: the first call of
  \<^verbatim>\<open>step\<close> returns true, and it has drawn the crossbolt there.
\<close>

theorem first_step_draws:
  assumes "CrossboltAnimation_init cv start goal = Inr self"
    and "0 < cell_width cv" and "0 < cell_height cv"
  shows "\<not> has_passed_target self
       \<and> (\<exists>self' cv'. CrossboltAnimation_step self (cv, w) = Inr (True, self', (cv', w))
             \<and> ops cv' = ops cv @ [CreateImage (get_position_center cv start) (angle self)])"
proof -
  note f = init_fields [OF assms(1)]
  have d: "direction self \<in> unit_directions"
    using f(1) by (rule direction_in_units)
  have "0 \<le> travel_offset self"
    using travel_distance_nonneg [of cv start goal] assms(2,3)
    by (simp add: init_offset [OF assms(1)])
  then have no: "\<not> has_passed_target self"
    using d by (simp add: has_passed_target_offset)
  then show ?thesis
    by (simp add: CrossboltAnimation_step_def draw_def clear_def canvas_create_image_def f(2,5))
qed

theorem first_step_draws_witness:
  "CrossboltAnimation_init canvas25 (0, 0) (0, 3) = Inr bolt25
   \<and> 0 < cell_width canvas25 \<and> 0 < cell_height canvas25
   \<and> \<not> has_passed_target bolt25
   \<and> (\<exists>self' cv'. CrossboltAnimation_step bolt25 (canvas25, ()) = Inr (True, self', (cv', ()))
         \<and> ops cv' = [CreateImage (12, 12) (Some 0)])"
proof -
  have h: "CrossboltAnimation_init canvas25 (0, 0) (0, 3) = Inr bolt25"
    "0 < cell_width canvas25" "0 < cell_height canvas25"
    by (simp_all add: CrossboltAnimation_init_def direction_from_positions_def bolt25_def
        get_position_center_def canvas25_def angle_from_direction_def ANGLE_MAP_def)
  have "ops canvas25 = []" "get_position_center canvas25 (0, 0) = (12, 12)"
    "angle bolt25 = Some 0"
    by (simp_all add: canvas25_def get_position_center_def bolt25_def)
  then show ?thesis
    using h first_step_draws [OF h, of "()"] by simp
qed

section \<open>The lifecycle hooks\<close>

text \<open>
  C5 fails on the crossbolt. Its constructor never runs \<^verbatim>\<open>Animation.__init__\<close>, so a
  crossbolt animation on which no hook was registered has no \<^verbatim>\<open>_start_callback\<close>:
  playing it raises \<^verbatim>\<open>AttributeError\<close> in \<^verbatim>\<open>start\<close>, before any step.
\<close>

theorem crossbolt_start_without_hook_raises:
  "(case CrossboltAnimation_init cv (0, 0) (0, 1) of
      Inl err \<Rightarrow> None
    | Inr self \<Rightarrow> Some (play_animation CrossboltAnimation_class (self, e)))
   = Some ([Start], Raised AttributeError)"
  by (simp add: CrossboltAnimation_init_def direction_from_positions_def play_animation_def
      CrossboltAnimation_class_def Animation_start_def lift_env_def)

text \<open>
  The base class and the replay animation, whose constructor does run
  \<^verbatim>\<open>Animation.__init__\<close>, have the no-op defaults, and a registration replaces the one
  before it.
\<close>

lemma default_hooks_no_op:
  "Animation_start Animation_init e = Inr e"
  "Animation_finish Animation_init e = Inr e"
  "Animation_start (TimeMachineAnimation_init gs dg) e = Inr e"
  "Animation_finish (TimeMachineAnimation_init gs dg) e = Inr e"
  by (simp_all add: Animation_start_def Animation_finish_def Animation_init_def
      TimeMachineAnimation_init_def Animation.defs TimeMachineAnimation.defs)

lemma last_registration_wins:
  "Animation_start (on_start (on_start self f) g) e = Inr (g e)"
  "Animation_finish (on_finish (on_finish self f) g) e = Inr (g e)"
  by (simp_all add: Animation_start_def Animation_finish_def on_start_def on_finish_def)

section \<open>The manager's protocol\<close>














lemma time_machine_init_simps:
  "game_states (TimeMachineAnimation_init gs dg) = gs"
  "draw_game (TimeMachineAnimation_init gs dg) = dg"
  "current_step (TimeMachineAnimation_init gs dg) = int (length gs) - 1"
  "start_callback (TimeMachineAnimation_init gs dg) = Some (\<lambda>e. e)"
  "finish_callback (TimeMachineAnimation_init gs dg) = Some (\<lambda>e. e)"
  by (simp_all add: TimeMachineAnimation_init_def Animation_init_def Animation.defs
      TimeMachineAnimation.defs)



section \<open>The replay\<close>

lemma time_machine_step_method:
  "step_method TimeMachineAnimation_class (self, e) = TimeMachineAnimation_step self e"
  by (simp add: TimeMachineAnimation_class_def)

lemma time_machine_step_draw:
  assumes "current_step self = int m - 1" and "0 < m" and "m \<le> length (game_states self)"
  shows "TimeMachineAnimation_step self e =
           Inr (True, self\<lparr>current_step := int m - 2\<rparr>,
                draw_game self (game_states self ! (m - 1)) e)"
  using assms by (simp add: TimeMachineAnimation_step_def list_getitem_def nat_diff_distrib')

lemma time_machine_step_stop:
  "current_step self = - 1 \<Longrightarrow> TimeMachineAnimation_step self e = Inr (False, self, e)"
  by (simp add: TimeMachineAnimation_step_def)

lemma time_machine_step_calls:
  assumes "current_step self = int m - 1" and "m \<le> length (game_states self)" and "k \<le> m"
  shows "step_calls TimeMachineAnimation_class k (self, e) =
           Inr (replicate k True,
                (self\<lparr>current_step := int m - 1 - int k\<rparr>,
                 fold (\<lambda>i. draw_game self (game_states self ! i)) (rev [m - k..<m]) e))"
  using assms
proof (induction k arbitrary: self e m)
  case 0
  then show ?case by simp
next
  case (Suc k)
  then obtain m' where m: "m = Suc m'"
    by (cases m) simp_all
  let ?self = "self\<lparr>current_step := int m' - 1\<rparr>"
  let ?e = "draw_game self (game_states self ! m') e"
  have first: "TimeMachineAnimation_step self e = Inr (True, ?self, ?e)"
    using time_machine_step_draw [of self m e] Suc.prems by (simp add: m)
  have rest: "step_calls TimeMachineAnimation_class k (?self, ?e) =
           Inr (replicate k True,
                (?self\<lparr>current_step := int m' - 1 - int k\<rparr>,
                 fold (\<lambda>i. draw_game ?self (game_states ?self ! i)) (rev [m' - k..<m']) ?e))"
    using Suc.prems by (intro Suc.IH) (simp_all add: m)
  have upt: "[m - Suc k..<m] = [m' - k..<m'] @ [m']"
    using Suc.prems(3) by (simp add: m)
  show ?case
    by (simp add: time_machine_step_method first rest upt m)
qed

lemma step_calls_add:
  "step_calls cls (n + m) a =
     (case step_calls cls n a of
        Inl err \<Rightarrow> Inl err
      | Inr (bs, a') \<Rightarrow>
          (case step_calls cls m a' of
             Inl err \<Rightarrow> Inl err
           | Inr (bs', a'') \<Rightarrow> Inr (bs @ bs', a'')))"
  by (induction n arbitrary: a) (auto split: sum.splits prod.splits)

text \<open>
  C3. A replay over the \<open>N\<close> snapshots \<open>gs\<close>, for any \<open>N\<close>, with the redraw callback
  \<open>dg\<close>, stepped \<open>N + 1\<close> times in the environment \<open>e\<close>: the first \<open>N\<close> calls return true
  and the last returns false, and the environment has gone through the redraws of the
  snapshots at the indices \<open>N - 1\<close> down to \<open>0\<close>, in that order; with no snapshot, the
  first call returns false. The \<open>k\<close>-th call, for \<open>1 \<le> k \<le> N\<close>, is made after \<open>k - 1\<close>
  calls that returned true; it returns true and redraws the snapshot at index \<open>N - k\<close>.
\<close>

theorem replay_visits_snapshots_backwards:
  fixes gs :: "'s list" and dg :: "'s \<Rightarrow> 'w callback"
  defines "N \<equiv> length gs"
  defines "self \<equiv> TimeMachineAnimation_init gs dg"
  shows "step_calls TimeMachineAnimation_class (Suc N) (self, e) =
           Inr (replicate N True @ [False],
                (self\<lparr>current_step := - 1\<rparr>, fold (\<lambda>i. dg (gs ! i)) (rev [0..<N]) e))
       \<and> (1 \<le> k \<and> k \<le> N \<longrightarrow>
           (\<exists>self' e'.
              step_calls TimeMachineAnimation_class (k - 1) (self, e)
                = Inr (replicate (k - 1) True, (self', e'))
            \<and> step_method TimeMachineAnimation_class (self', e')
                = Inr (True, (self'\<lparr>current_step := int N - int k - 1\<rparr>, dg (gs ! (N - k)) e'))))"
proof -
  have cur: "current_step self = int N - 1" and len: "N \<le> length (game_states self)"
    by (simp_all add: self_def N_def time_machine_init_simps)
  have gsd: "game_states self = gs" "draw_game self = dg"
    by (simp_all add: self_def time_machine_init_simps)
  have all: "step_calls TimeMachineAnimation_class N (self, e) =
           Inr (replicate N True,
                (self\<lparr>current_step := - 1\<rparr>, fold (\<lambda>i. dg (gs ! i)) (rev [0..<N]) e))"
    using time_machine_step_calls [OF cur len, of N e] by (simp add: gsd)
  have "step_calls TimeMachineAnimation_class (N + 1) (self, e) =
           Inr (replicate N True @ [False],
                (self\<lparr>current_step := - 1\<rparr>, fold (\<lambda>i. dg (gs ! i)) (rev [0..<N]) e))"
    unfolding step_calls_add all
    by (simp add: time_machine_step_method time_machine_step_stop)
  then have A: "step_calls TimeMachineAnimation_class (Suc N) (self, e) =
           Inr (replicate N True @ [False],
                (self\<lparr>current_step := - 1\<rparr>, fold (\<lambda>i. dg (gs ! i)) (rev [0..<N]) e))"
    by simp
  have B: "\<exists>self' e'.
              step_calls TimeMachineAnimation_class (k - 1) (self, e)
                = Inr (replicate (k - 1) True, (self', e'))
            \<and> step_method TimeMachineAnimation_class (self', e')
                = Inr (True, (self'\<lparr>current_step := int N - int k - 1\<rparr>, dg (gs ! (N - k)) e'))"
    if k: "1 \<le> k" "k \<le> N"
  proof -
    let ?self = "self\<lparr>current_step := int N - 1 - int (k - 1)\<rparr>"
    let ?e = "fold (\<lambda>i. dg (gs ! i)) (rev [N - (k - 1)..<N]) e"
    have before: "step_calls TimeMachineAnimation_class (k - 1) (self, e)
                    = Inr (replicate (k - 1) True, (?self, ?e))"
      using time_machine_step_calls [OF cur len, of "k - 1" e] k(2) by (simp add: gsd)
    have "TimeMachineAnimation_step ?self ?e =
             Inr (True, ?self\<lparr>current_step := int (N - (k - 1)) - 2\<rparr>,
                  draw_game ?self (game_states ?self ! (N - (k - 1) - 1)) ?e)"
      using k len by (intro time_machine_step_draw) (simp_all add: of_nat_diff)
    then have kth: "step_method TimeMachineAnimation_class (?self, ?e) =
                Inr (True, (?self\<lparr>current_step := int N - int k - 1\<rparr>, dg (gs ! (N - k)) ?e))"
      using k by (simp add: time_machine_step_method gsd of_nat_diff)
    from before kth show ?thesis by blast
  qed
  from A B show ?thesis by blast
qed

text \<open>
  Three snapshots, each redraw appending its snapshot to a log: the log ends as
  30, 20, 10, and the second call is the one that redraws 20. With no snapshot the
  one call returns false and the log stays empty.
\<close>

theorem replay_visits_snapshots_backwards_witness:
  "1 \<le> (2 :: nat) \<and> 2 \<le> length [10, 20, 30 :: nat]
   \<and> step_calls TimeMachineAnimation_class 4
        (TimeMachineAnimation_init [10, 20, 30 :: nat] log_view, (canvas25, []))
       = Inr ([True, True, True, False],
              ((TimeMachineAnimation_init [10, 20, 30] log_view)\<lparr>current_step := - 1\<rparr>,
               (canvas25, [30, 20, 10])))
   \<and> step_calls TimeMachineAnimation_class 1
        (TimeMachineAnimation_init [10, 20, 30 :: nat] log_view, (canvas25, []))
       = Inr ([True],
              ((TimeMachineAnimation_init [10, 20, 30] log_view)\<lparr>current_step := 1\<rparr>,
               (canvas25, [30])))
   \<and> step_method TimeMachineAnimation_class
        ((TimeMachineAnimation_init [10, 20, 30 :: nat] log_view)\<lparr>current_step := 1\<rparr>,
         (canvas25, [30]))
       = Inr (True,
              ((TimeMachineAnimation_init [10, 20, 30] log_view)\<lparr>current_step := 0\<rparr>,
               (canvas25, [30, 20])))
   \<and> step_calls TimeMachineAnimation_class 1
        (TimeMachineAnimation_init ([] :: nat list) log_view, (canvas25, []))
       = Inr ([False],
              ((TimeMachineAnimation_init [] log_view)\<lparr>current_step := - 1\<rparr>, (canvas25, [])))"
proof -
  have h: "1 \<le> (2 :: nat) \<and> 2 \<le> length [10, 20, 30 :: nat]"
    by simp
  have ev: "step_calls TimeMachineAnimation_class 1
        (TimeMachineAnimation_init [10, 20, 30 :: nat] log_view, (canvas25, []))
       = Inr ([True],
              ((TimeMachineAnimation_init [10, 20, 30] log_view)\<lparr>current_step := 1\<rparr>,
               (canvas25, [30])))"
    by (simp add: time_machine_step_method TimeMachineAnimation_step_def list_getitem_def
        log_view_def time_machine_init_simps)
  show ?thesis
    using h ev
      replay_visits_snapshots_backwards [of "[10, 20, 30 :: nat]" log_view "(canvas25, [])" 2]
      replay_visits_snapshots_backwards [of "[] :: nat list" log_view "(canvas25, [])" 2]
    by (simp add: log_view_def numeral_eq_Suc)
qed

lemma py_round_div_nearest:
  assumes "0 < b"
  shows "\<exists>ms. py_round_div a b = Inr ms \<and> 2 * abs (ms * b - a) \<le> b
            \<and> (2 * abs (ms * b - a) < b \<or> even ms)"
proof -
  define q r where "q = a div b" and "r = a mod b"
  have a: "a = q * b + r" and r: "0 \<le> r" "r < b"
    using assms by (simp_all add: q_def r_def)
  have 1: "q * b - a = - r" and 2: "(q + 1) * b - a = b - r"
    using a by (simp_all add: algebra_simps)
  show ?thesis
    using assms r unfolding py_round_div_def Let_def q_def [symmetric] r_def [symmetric]
    by (auto simp: 1 2)
qed

text \<open>
  C6, as the code has it. The budget in \<^verbatim>\<open>get_frequency\<close> is 1000 ms: for a replay of
  \<open>N > 0\<close> snapshots the frame interval is the integer nearest to \<open>1000 / N\<close>, the even
  one of the two when \<open>1000 / N\<close> lies halfway between them, so \<open>N\<close> intervals differ from
  the budget by at most \<open>N / 2\<close> ms. For any four snapshots the interval is 250 ms.
\<close>

theorem replay_frequency_nearest:
  assumes "gs \<noteq> []"
  shows "(\<exists>ms. TimeMachineAnimation_get_frequency (TimeMachineAnimation_init gs dg) = Inr ms
            \<and> 2 * abs (ms * int (length gs) - 1000) \<le> int (length gs)
            \<and> (2 * abs (ms * int (length gs) - 1000) < int (length gs) \<or> even ms))
       \<and> TimeMachineAnimation_get_frequency (TimeMachineAnimation_init [s1, s2, s3, s4] dg)
           = Inr 250"
proof -
  have pos: "0 < int (length gs)"
    using assms by simp
  have four: "TimeMachineAnimation_get_frequency (TimeMachineAnimation_init [s1, s2, s3, s4] dg)
           = Inr 250"
    by (simp add: TimeMachineAnimation_get_frequency_def time_machine_init_simps py_round_div_def)
  show ?thesis
    using py_round_div_nearest [OF pos, of 1000] four
    by (simp add: TimeMachineAnimation_get_frequency_def time_machine_init_simps)
qed

theorem replay_frequency_nearest_witness:
  "[(), (), (), ()] \<noteq> []
   \<and> TimeMachineAnimation_get_frequency
       (TimeMachineAnimation_init [(), (), (), ()] (keep_view :: unit \<Rightarrow> unit callback)) = Inr 250"
proof -
  have h: "[(), (), (), ()] \<noteq> []"
    by simp
  show ?thesis
    using h replay_frequency_nearest [OF h, of "keep_view :: unit \<Rightarrow> unit callback" "()" "()" "()" "()"]
    by simp
qed

text \<open>Sixteen snapshots: \<open>1000 / 16 = 62.5\<close>, and the interval is the even 62.\<close>

lemma replay_frequency_tie:
  "TimeMachineAnimation_get_frequency (TimeMachineAnimation_init (replicate 16 s) dg) = Inr 62"
  by (simp add: TimeMachineAnimation_get_frequency_def time_machine_init_simps py_round_div_def)

text \<open>
  C6 as stated fails for four snapshots: the interval is 250 ms, a quarter of 1000 ms,
  and not the 500 ms that a budget of 2000 ms would give.
\<close>

theorem replay_frequency_counterexample:
  "TimeMachineAnimation_get_frequency
     (TimeMachineAnimation_init [(), (), (), ()] (keep_view :: unit \<Rightarrow> unit callback)) = Inr 250
   \<and> TimeMachineAnimation_get_frequency
     (TimeMachineAnimation_init [(), (), (), ()] (keep_view :: unit \<Rightarrow> unit callback)) \<noteq> Inr 500"
  by (simp add: TimeMachineAnimation_get_frequency_def time_machine_init_simps py_round_div_def)

text \<open>
  C7. A replay over no snapshot is constructed with its cursor at \<open>-1\<close>, already past
  the end. Playing it, with hooks \<open>f\<close> and \<open>g\<close> registered as \<^verbatim>\<open>_reverse_time\<close> does,
  calls \<^verbatim>\<open>start\<close>, one \<^verbatim>\<open>step\<close> that returns false, and \<^verbatim>\<open>finish\<close>: the two hooks
  have run and nothing was redrawn. Nothing is scheduled, so the timer changes nothing
  however often it fires. \<^verbatim>\<open>get_frequency\<close>, which would raise
  \<^verbatim>\<open>ZeroDivisionError\<close> on this animation, is not among the calls.
\<close>

theorem empty_replay_terminal:
  fixes dg :: "'s \<Rightarrow> 'w callback" and f g :: "'w callback"
  defines "self \<equiv> on_finish (on_start (TimeMachineAnimation_init [] dg) f) g"
  shows "play_animation TimeMachineAnimation_class (self, e)
           = ([Start, Step (Some False), Finish], Completed (self, g (f e)))
       \<and> mainloop TimeMachineAnimation_class n (play_animation TimeMachineAnimation_class (self, e))
           = ([Start, Step (Some False), Finish], Completed (self, g (f e)))
       \<and> TimeMachineAnimation_get_frequency self = Inl ZeroDivisionError"
proof -
  have fields: "start_callback self = Some f" "finish_callback self = Some g"
    "current_step self = - 1" "game_states self = []"
    by (simp_all add: self_def on_start_def on_finish_def time_machine_init_simps)
  have p: "play_animation TimeMachineAnimation_class (self, e)
     = ([Start, Step (Some False), Finish], Completed (self, g (f e)))"
    by (simp add: play_animation_def step_animation_def TimeMachineAnimation_class_def
        Animation_start_def Animation_finish_def lift_env_def TimeMachineAnimation_step_def
        fields)
  have m: "mainloop TimeMachineAnimation_class n
        ([Start, Step (Some False), Finish], Completed (self, g (f e)))
     = ([Start, Step (Some False), Finish], Completed (self, g (f e)))"
    by (cases n) simp_all
  have z: "TimeMachineAnimation_get_frequency self = Inl ZeroDivisionError"
    by (simp add: TimeMachineAnimation_get_frequency_def py_round_div_def fields)
  from p m z show ?thesis by simp
qed

section \<open>Runs that complete\<close>

text \<open>
  The protocol theorem holds for every animation, also for one whose \<^verbatim>\<open>step\<close> never
  returns false. When the \<open>k + 1\<close>-th step does return false and no method raises on
  the way, \<open>k\<close> firings of the timer complete the run, and \<^verbatim>\<open>finish\<close> is its last call.
\<close>

lemma mainloop_append:
  "mainloop cls n (tr, out)
     = (tr @ fst (mainloop cls n ([], out)), snd (mainloop cls n ([], out)))"
proof (induction n arbitrary: tr out)
  case 0
  show ?case by simp
next
  case (Suc n)
  show ?case
  proof (cases out)
    case (Scheduled ms a)
    obtain tr1 out1 where s: "step_animation cls a = (tr1, out1)"
      by (cases "step_animation cls a")
    show ?thesis
      using Suc.IH [of "tr @ tr1" out1] Suc.IH [of tr1 out1]
      by (simp add: Scheduled s)
  qed simp_all
qed

lemma step_calls_Suc_Inr:
  assumes "step_calls cls (Suc n) a = Inr (bs, a1)"
  shows "\<exists>b a' bs'. step_method cls a = Inr (b, a') \<and> step_calls cls n a' = Inr (bs', a1)
           \<and> bs = b # bs'"
  using assms by (auto split: sum.splits prod.splits)

lemma step_animation_completes:
  assumes "step_calls cls (Suc k) a0 = Inr (replicate k True @ [False], a1)"
    and "finish_method cls a1 = Inr a2"
    and "\<forall>j bs s. j < k \<and> step_calls cls (Suc j) a0 = Inr (bs, s)
           \<longrightarrow> (\<exists>ms. get_frequency_method cls s = Inr ms)"
  shows "\<exists>mss. length mss = k
           \<and> mainloop cls k (step_animation cls a0)
               = (frames mss @ [Step (Some False), Finish], Completed a2)"
  using assms
proof (induction k arbitrary: a0)
  case 0
  then have "step_method cls a0 = Inr (False, a1)"
    by (auto split: sum.splits prod.splits)
  then have "step_animation cls a0 = ([Step (Some False), Finish], Completed a2)"
    using "0.prems"(2) by (simp add: step_animation_def)
  then show ?case by simp
next
  case (Suc k)
  obtain b a' bs' where first: "step_method cls a0 = Inr (b, a')"
    and rest: "step_calls cls (Suc k) a' = Inr (bs', a1)"
    and bs: "replicate (Suc k) True @ [False] = b # bs'"
    using step_calls_Suc_Inr [OF Suc.prems(1)] by blast
  from bs have b: "b = True" and bs': "bs' = replicate k True @ [False]"
    by simp_all
  have one: "step_calls cls (Suc 0) a0 = Inr ([True], a')"
    using first b by simp
  obtain ms where ms: "get_frequency_method cls a' = Inr ms"
    using Suc.prems(3) one by blast
  have sa: "step_animation cls a0 = (frames [ms], Scheduled ms a')"
    using first b ms by (simp add: step_animation_def)
  have freq: "\<forall>j bs s. j < k \<and> step_calls cls (Suc j) a' = Inr (bs, s)
           \<longrightarrow> (\<exists>ms. get_frequency_method cls s = Inr ms)"
  proof (intro allI impI, elim conjE)
    fix j bs s
    assume j: "j < k" and c: "step_calls cls (Suc j) a' = Inr (bs, s)"
    have "step_calls cls (Suc (Suc j)) a0 = Inr (True # bs, s)"
      using first b c by simp
    moreover have "Suc j < Suc k"
      using j by simp
    ultimately show "\<exists>ms. get_frequency_method cls s = Inr ms"
      using Suc.prems(3) by blast
  qed
  obtain mss where mss: "length mss = k"
    and run: "mainloop cls k (step_animation cls a')
                = (frames mss @ [Step (Some False), Finish], Completed a2)"
    using Suc.IH [OF rest [unfolded bs'] Suc.prems(2) freq] by blast
  obtain tr1 out1 where s1: "step_animation cls a' = (tr1, out1)"
    by (cases "step_animation cls a'")
  have "mainloop cls (Suc k) (step_animation cls a0)
          = (frames (ms # mss) @ [Step (Some False), Finish], Completed a2)"
    using run mainloop_append [of cls k "frames [ms] @ tr1" out1] mainloop_append [of cls k tr1 out1]
    by (simp add: sa s1)
  then show ?case
    using mss by (intro exI [of _ "ms # mss"]) simp
qed

lemma play_animation_completes:
  assumes "start_method cls a = Inr a0"
    and "step_calls cls (Suc k) a0 = Inr (replicate k True @ [False], a1)"
    and "finish_method cls a1 = Inr a2"
    and "\<forall>j bs s. j < k \<and> step_calls cls (Suc j) a0 = Inr (bs, s)
           \<longrightarrow> (\<exists>ms. get_frequency_method cls s = Inr ms)"
  shows "\<exists>mss. length mss = k
           \<and> mainloop cls k (play_animation cls a)
               = (Start # frames mss @ [Step (Some False), Finish], Completed a2)"
proof -
  obtain mss where mss: "length mss = k"
    and run: "mainloop cls k (step_animation cls a0)
                = (frames mss @ [Step (Some False), Finish], Completed a2)"
    using step_animation_completes [OF assms(2,3,4)] by blast
  obtain tr1 out1 where s1: "step_animation cls a0 = (tr1, out1)"
    by (cases "step_animation cls a0")
  have "mainloop cls k (play_animation cls a)
          = (Start # frames mss @ [Step (Some False), Finish], Completed a2)"
    using run mainloop_append [of cls k "Start # tr1" out1] mainloop_append [of cls k tr1 out1]
    by (simp add: play_animation_def assms(1) s1)
  with mss show ?thesis by blast
qed

text \<open>
  A replay of \<open>N\<close> snapshots completes with the \<open>N\<close>-th firing of the timer, the
  snapshots redrawn from the last to the first.
\<close>

lemma replay_completes:
  fixes gs :: "'s list" and dg :: "'s \<Rightarrow> 'w callback"
  defines "N \<equiv> length gs"
  defines "self \<equiv> TimeMachineAnimation_init gs dg"
  shows "\<exists>mss. length mss = N
           \<and> mainloop TimeMachineAnimation_class N (play_animation TimeMachineAnimation_class (self, e))
               = (Start # frames mss @ [Step (Some False), Finish],
                  Completed (self\<lparr>current_step := - 1\<rparr>,
                             fold (\<lambda>i. dg (gs ! i)) (rev [0..<N]) e))"
proof (rule play_animation_completes)
  show "start_method TimeMachineAnimation_class (self, e) = Inr (self, e)"
    by (simp add: TimeMachineAnimation_class_def Animation_start_def lift_env_def self_def
        time_machine_init_simps)
  have cur: "current_step self = int N - 1" and len: "N \<le> length (game_states self)"
    by (simp_all add: self_def N_def time_machine_init_simps)
  have gsd: "game_states self = gs" "draw_game self = dg"
    by (simp_all add: self_def time_machine_init_simps)
  have all: "step_calls TimeMachineAnimation_class N (self, e) =
           Inr (replicate N True,
                (self\<lparr>current_step := - 1\<rparr>, fold (\<lambda>i. dg (gs ! i)) (rev [0..<N]) e))"
    using time_machine_step_calls [OF cur len, of N e] by (simp add: gsd)
  have "step_calls TimeMachineAnimation_class (N + 1) (self, e) =
           Inr (replicate N True @ [False],
                (self\<lparr>current_step := - 1\<rparr>, fold (\<lambda>i. dg (gs ! i)) (rev [0..<N]) e))"
    unfolding step_calls_add all
    by (simp add: time_machine_step_method time_machine_step_stop)
  then show "step_calls TimeMachineAnimation_class (Suc N) (self, e) =
           Inr (replicate N True @ [False],
                (self\<lparr>current_step := - 1\<rparr>, fold (\<lambda>i. dg (gs ! i)) (rev [0..<N]) e))"
    by simp
  show "finish_method TimeMachineAnimation_class
          (self\<lparr>current_step := - 1\<rparr>, fold (\<lambda>i. dg (gs ! i)) (rev [0..<N]) e)
        = Inr (self\<lparr>current_step := - 1\<rparr>, fold (\<lambda>i. dg (gs ! i)) (rev [0..<N]) e)"
    by (simp add: TimeMachineAnimation_class_def Animation_finish_def lift_env_def self_def
        time_machine_init_simps)
  show "\<forall>j bs s. j < N \<and> step_calls TimeMachineAnimation_class (Suc j) (self, e) = Inr (bs, s)
          \<longrightarrow> (\<exists>ms. get_frequency_method TimeMachineAnimation_class s = Inr ms)"
  proof (intro allI impI, elim conjE)
    fix j bs s
    assume j: "j < N" and c: "step_calls TimeMachineAnimation_class (Suc j) (self, e) = Inr (bs, s)"
    have "game_states (fst s) = gs"
      using time_machine_step_calls [OF cur len, of "Suc j" e] j c by (auto simp: gsd)
    moreover have "gs \<noteq> []"
      using j by (auto simp: N_def)
    ultimately show "\<exists>ms. get_frequency_method TimeMachineAnimation_class s = Inr ms"
      by (cases s)
         (simp add: TimeMachineAnimation_class_def TimeMachineAnimation_get_frequency_def
            py_round_div_def Let_def)
  qed
qed

text \<open>
  A crossbolt with both hooks registered, as \<^verbatim>\<open>_shoot_at_zombie\<close> plays it, on a canvas
  with cells of positive size: the run completes with firing number \<open>D div S + 1\<close> of
  the timer.
\<close>

lemma crossbolt_step_keeps:
  assumes "CrossboltAnimation_step self e = Inr (b, self', e')"
  shows "start_callback self' = start_callback self"
    and "finish_callback self' = finish_callback self"
  using assms
  by (auto simp: CrossboltAnimation_step_def draw_def move_one_step_def canvas_create_image_def
      split: if_splits prod.splits)

lemma crossbolt_step_calls_keep:
  "step_calls CrossboltAnimation_class n (self, e) = Inr (bs, (self', e'))
     \<Longrightarrow> finish_callback self' = finish_callback self"
proof (induction n arbitrary: self e bs)
  case 0
  then show ?case by simp
next
  case (Suc n)
  obtain b a' bs' where first: "step_method CrossboltAnimation_class (self, e) = Inr (b, a')"
    and rest: "step_calls CrossboltAnimation_class n a' = Inr (bs', (self', e'))"
    using step_calls_Suc_Inr [OF Suc.prems] by blast
  obtain self1 e1 where a': "a' = (self1, e1)"
    by (cases a')
  have "finish_callback self1 = finish_callback self"
    using first crossbolt_step_keeps(2) [of self e b self1 e1]
    by (simp add: crossbolt_step_method a')
  moreover have "finish_callback self' = finish_callback self1"
    using rest unfolding a' by (rule Suc.IH)
  ultimately show ?case by simp
qed

lemma crossbolt_completes:
  fixes f g :: "'w callback"
  assumes "CrossboltAnimation_init cv start goal = Inr self0"
    and "0 < cell_width cv" and "0 < cell_height cv"
  defines "self \<equiv> on_finish (on_start self0 f) g"
  defines "k \<equiv> nat (travel_distance cv start goal div STEP_SIZE) + 1"
  shows "\<exists>mss a2. length mss = k
           \<and> mainloop CrossboltAnimation_class k
                (play_animation CrossboltAnimation_class (self, (cv, w)))
               = (Start # frames mss @ [Step (Some False), Finish], Completed a2)"
proof -
  let ?e = "f (cv, w)"
  have fields: "direction self = direction self0" "travel_offset self = travel_offset self0"
    "start_callback self = Some f" "finish_callback self = Some g"
    by (simp_all add: self_def on_start_def on_finish_def travel_offset_def)
  have d: "direction self \<in> unit_directions"
    using direction_in_units [OF init_fields(1) [OF assms(1)]] by (simp add: fields)
  have o: "travel_offset self = travel_distance cv start goal"
    using init_offset [OF assms(1)] by (simp add: fields)
  have nonneg: "0 \<le> travel_offset self"
    using travel_distance_nonneg [of cv start goal] assms(2,3) by (simp add: o)
  have st: "start_method CrossboltAnimation_class (self, (cv, w)) = Inr (self, ?e)"
    by (simp add: CrossboltAnimation_class_def Animation_start_def lift_env_def fields)
  have "step_results CrossboltAnimation_class (Suc k) (self, ?e) = Inr (replicate k True @ [False])"
    using step_results_by_offset [OF d nonneg refl, of ?e] by (simp add: k_def o)
  then obtain a1 where calls: "step_calls CrossboltAnimation_class (Suc k) (self, ?e)
                                 = Inr (replicate k True @ [False], a1)"
    unfolding step_results_def by (auto split: sum.splits prod.splits)
  obtain self1 e1 where a1: "a1 = (self1, e1)"
    by (cases a1)
  have "finish_callback self1 = Some g"
    using crossbolt_step_calls_keep [OF calls [unfolded a1]] by (simp add: fields)
  then have fin: "finish_method CrossboltAnimation_class a1 = Inr (self1, g (clear self1 (fst e1), snd e1))"
    by (simp add: a1 CrossboltAnimation_class_def CrossboltAnimation_finish_def
        Animation_finish_def lift_env_def)
  have "\<exists>ms. get_frequency_method CrossboltAnimation_class s = Inr ms" for s :: "'w CrossboltAnimation \<times> 'w env"
    by (cases s)
       (simp add: CrossboltAnimation_class_def Animation_get_frequency_def
          CrossboltAnimation_get_framerate_def py_round_div_def)
  then have freq: "\<forall>j bs s. j < k \<and> step_calls CrossboltAnimation_class (Suc j) (self, ?e) = Inr (bs, s)
          \<longrightarrow> (\<exists>ms. get_frequency_method CrossboltAnimation_class s = Inr ms)"
    by blast
  show ?thesis
    using play_animation_completes [OF st calls fin freq] by blast
qed

end
